theory Spec2Isabelle
  imports Complex_Main
begin

section \<open>Review analysis of \<open>app.py\<close>: data model\<close>

text \<open>
  Python \<open>str\<close> values are modelled as \<open>string\<close>; a character outside ASCII is the
  sequence of its UTF-8 bytes. The program never measures or indexes its texts: it only
  concatenates them, joins them, tests them for emptiness and uses them as dictionary and
  cache keys, and all of that agrees on code points and on their UTF-8 encoding.

  A number of the program is a 64-bit float: a finite value, an infinity or \<open>nan\<close>.
  The two zeros are not told apart: the only divisors of the program are products of
  norms, which are never negative.
\<close>

datatype npfloat = Finite real | PosInf | NegInf | NaN

text \<open>An embedding is the list of numbers at \<open>data[0].embedding\<close> of the provider's
  answer.\<close>

type_synonym embedding = "npfloat list"

text \<open>
  The exceptions that can travel through the program: numpy's \<open>ValueError\<close> when
  \<open>np.dot\<close> gets two one-dimensional arrays of different shapes; whatever
  \<open>get_embedding\<close> re-raises (its \<open>except\<close> clause logs and raises again), kept with
  its message; the \<open>TypeError\<close> of the JSON encoder for a value it cannot encode; the
  \<open>AttributeError\<close> of \<open>data.get\<close> when \<open>data\<close> is not a dictionary; and the exception
  of \<open>request.get_json()\<close> for a body that is not JSON.
\<close>

datatype exn =
    ValueError
  | TypeError
  | AttributeError
  | BadRequest
  | EmbeddingFailure string

section \<open>Float arithmetic\<close>

text \<open>
  Rounding of a real to the nearest float, ties to even: the unit in the last place of
  \<open>x\<close> is \<open>2\<close> to the power \<open>max \<lfloor>log\<^sub>2 |x|\<rfloor> (-1022) - 52\<close>, and \<open>x\<close> is rounded to a
  multiple of it. A result at or beyond \<open>2\<^sup>1\<^sup>0\<^sup>2\<^sup>4 - 2\<^sup>9\<^sup>7\<^sup>0\<close> in magnitude overflows to
  an infinity.
\<close>

definition round_half_even :: "real \<Rightarrow> int" where
  "round_half_even q =
     (let f = \<lfloor>q\<rfloor>; d = q - of_int f
      in if d < 1 / 2 then f else if 1 / 2 < d then f + 1 else if even f then f else f + 1)"

definition float64_round :: "real \<Rightarrow> real" where
  "float64_round x =
     (let e = max \<lfloor>log 2 \<bar>x\<bar>\<rfloor> (- 1022) - 52; u = 2 powr (of_int e)
      in u * of_int (round_half_even (x / u)))"

definition overflow_threshold :: real where
  "overflow_threshold = 2 ^ 1024 - 2 ^ 970"

definition fp_round :: "real \<Rightarrow> npfloat" where
  "fp_round x =
     (if overflow_threshold \<le> \<bar>x\<bar> then (if 0 < x then PosInf else NegInf)
      else Finite (float64_round x))"

fun fmul :: "npfloat \<Rightarrow> npfloat \<Rightarrow> npfloat" where
  "fmul (Finite x) (Finite y) = fp_round (x * y)"
| "fmul NaN _ = NaN"
| "fmul _ NaN = NaN"
| "fmul (Finite x) PosInf = (if x = 0 then NaN else if 0 < x then PosInf else NegInf)"
| "fmul (Finite x) NegInf = (if x = 0 then NaN else if 0 < x then NegInf else PosInf)"
| "fmul PosInf (Finite y) = (if y = 0 then NaN else if 0 < y then PosInf else NegInf)"
| "fmul NegInf (Finite y) = (if y = 0 then NaN else if 0 < y then NegInf else PosInf)"
| "fmul PosInf PosInf = PosInf"
| "fmul NegInf NegInf = PosInf"
| "fmul PosInf NegInf = NegInf"
| "fmul NegInf PosInf = NegInf"

fun fadd :: "npfloat \<Rightarrow> npfloat \<Rightarrow> npfloat" where
  "fadd (Finite x) (Finite y) = fp_round (x + y)"
| "fadd NaN _ = NaN"
| "fadd _ NaN = NaN"
| "fadd PosInf NegInf = NaN"
| "fadd NegInf PosInf = NaN"
| "fadd PosInf _ = PosInf"
| "fadd _ PosInf = PosInf"
| "fadd NegInf _ = NegInf"
| "fadd _ NegInf = NegInf"

text \<open>Division: a zero divisor raises nothing (numpy only emits a warning) and yields
  \<open>nan\<close> for \<open>0/0\<close> and an infinity otherwise.\<close>

fun fdiv :: "npfloat \<Rightarrow> npfloat \<Rightarrow> npfloat" where
  "fdiv (Finite x) (Finite y) =
     (if y \<noteq> 0 then fp_round (x / y)
      else if x = 0 then NaN
      else if 0 < x then PosInf
      else NegInf)"
| "fdiv NaN _ = NaN"
| "fdiv _ NaN = NaN"
| "fdiv (Finite x) _ = Finite 0"
| "fdiv PosInf (Finite y) = (if 0 \<le> y then PosInf else NegInf)"
| "fdiv NegInf (Finite y) = (if 0 \<le> y then NegInf else PosInf)"
| "fdiv _ _ = NaN"

fun fsqrt :: "npfloat \<Rightarrow> npfloat" where
  "fsqrt (Finite x) = (if x < 0 then NaN else fp_round (sqrt x))"
| "fsqrt PosInf = PosInf"
| "fsqrt _ = NaN"

text \<open>The comparisons \<open>a < b\<close> and \<open>a == b\<close> of two floats: false as soon as one side
  is \<open>nan\<close>.\<close>

fun np_less :: "npfloat \<Rightarrow> npfloat \<Rightarrow> bool" where
  "np_less (Finite x) (Finite y) = (x < y)"
| "np_less (Finite x) PosInf = True"
| "np_less NegInf (Finite y) = True"
| "np_less NegInf PosInf = True"
| "np_less _ _ = False"

fun np_equal :: "npfloat \<Rightarrow> npfloat \<Rightarrow> bool" where
  "np_equal NaN _ = False"
| "np_equal _ NaN = False"
| "np_equal a b = (a = b)"

section \<open>Similarity engine\<close>

text \<open>
  The inner product of two arrays of one length: the products are added up in index
  order, starting from zero, each operation rounded. (numpy leaves the order of the
  additions to its BLAS kernel; the kernel treats its two arguments alike, as this sum
  does.)
\<close>

definition dot_value :: "embedding \<Rightarrow> embedding \<Rightarrow> npfloat" where
  "dot_value vec1 vec2 = foldl fadd (Finite 0) (map (\<lambda>(x, y). fmul x y) (zip vec1 vec2))"

text \<open>\<open>np.dot\<close> on two one-dimensional arrays: the inner product, or \<open>ValueError\<close>
  when the shapes are not aligned.\<close>

definition np_dot :: "embedding \<Rightarrow> embedding \<Rightarrow> exn + npfloat" where
  "np_dot vec1 vec2 =
     (if length vec1 \<noteq> length vec2 then Inl ValueError else Inr (dot_value vec1 vec2))"

text \<open>\<open>np.linalg.norm\<close> of a one-dimensional array: the square root of the inner
  product of the array with itself.\<close>

definition np_linalg_norm :: "embedding \<Rightarrow> npfloat" where
  "np_linalg_norm vec = fsqrt (dot_value vec vec)"

text \<open>\<open>cosine_similarity\<close>: the dot product is evaluated first, so its exception wins;
  there is no check of the lengths or of the norms in the function itself.\<close>

definition cosine_similarity :: "embedding \<Rightarrow> embedding \<Rightarrow> exn + npfloat" where
  "cosine_similarity vec1 vec2 =
     (case np_dot vec1 vec2 of
        Inl e \<Rightarrow> Inl e
      | Inr d \<Rightarrow> Inr (fdiv d (fmul (np_linalg_norm vec1) (np_linalg_norm vec2))))"

section \<open>Entity text builder\<close>

text \<open>An entry of \<open>HOTEL_DATA\<close>: the three keys every entry of the table has.\<close>

record hotel =
  name :: string
  description :: string
  features :: "string list"

text \<open>\<open>sep.join(xs)\<close> on a list of strings.\<close>

fun join :: "string \<Rightarrow> string list \<Rightarrow> string" where
  "join sep [] = []"
| "join sep [x] = x"
| "join sep (x # y # ys) = x @ sep @ join sep (y # ys)"

text \<open>
  The label that the f-string puts before the features: the Russian word for
  ``features'', eleven Cyrillic letters (U+041E U+0441 U+043E U+0431 U+0435 U+043D U+043D
  U+043E U+0441 U+0442 U+0438), here as their UTF-8 bytes.
\<close>

definition features_label :: string where
  "features_label =
     [CHR 0xD0, CHR 0x9E, CHR 0xD1, CHR 0x81, CHR 0xD0, CHR 0xBE, CHR 0xD0, CHR 0xB1,
      CHR 0xD0, CHR 0xB5, CHR 0xD0, CHR 0xBD, CHR 0xD0, CHR 0xBD, CHR 0xD0, CHR 0xBE,
      CHR 0xD1, CHR 0x81, CHR 0xD1, CHR 0x82, CHR 0xD0, CHR 0xB8]"

text \<open>
  The source builds the text twice, with the same f-string: in
  \<open>analyze_hotel_reviews\<close> and in \<open>custom_review\<close>. Each occurrence has its own
  definition here, so that their agreement is a statement and not a convention.
\<close>

definition analyze_hotel_text :: "hotel \<Rightarrow> string" where
  "analyze_hotel_text hotel =
     name hotel @ ''. '' @ description hotel @ '' '' @ features_label @ '': ''
       @ join '', '' (features hotel)"

definition custom_hotel_text :: "hotel \<Rightarrow> string" where
  "custom_hotel_text hotel =
     name hotel @ ''. '' @ description hotel @ '' '' @ features_label @ '': ''
       @ join '', '' (features hotel)"

text \<open>The template as the specification words it, with the English label.\<close>

definition spec_template :: "hotel \<Rightarrow> string" where
  "spec_template e =
     name e @ ''. '' @ description e @ '' Features: '' @ join '', '' (features e)"

section \<open>Embedding client and embedding cache\<close>

text \<open>
  The remote provider is outside the program. It is a parameter: \<open>provider n text\<close> is
  what the call number \<open>n\<close> of the process (counted from 0) gets for \<open>text\<close>: a vector,
  or the exception that \<open>get_embedding\<close> logs and re-raises. Indexing by the call number
  lets the provider answer the same text differently at different times.

  The state of the process is the content of the cache and the list of the texts sent to
  the provider so far, oldest first.
\<close>

type_synonym provider = "nat \<Rightarrow> string \<Rightarrow> exn + embedding"

record state =
  cache :: "(string \<times> embedding) list"
  calls :: "string list"

definition init_state :: state where
  "init_state = \<lparr>cache = [], calls = []\<rparr>"

definition get_embedding :: "provider \<Rightarrow> string \<Rightarrow> state \<Rightarrow> (exn + embedding) \<times> state" where
  "get_embedding provider text s =
     (provider (length (calls s)) text, s\<lparr>calls := calls s @ [text]\<rparr>)"

text \<open>
  \<open>@lru_cache(maxsize=100)\<close>, from the documented behaviour of \<open>functools\<close>: the
  entries are kept in order of use, most recently used first. A hit returns the stored
  result and moves its entry to the front. A miss calls the function; an exception
  leaves the cache as it was; a result is stored at the front, after the entry at the
  back has been dropped when the cache is full.
\<close>

definition maxsize :: nat where
  "maxsize = 100"

definition get_cached_embedding ::
  "provider \<Rightarrow> string \<Rightarrow> state \<Rightarrow> (exn + embedding) \<times> state" where
  "get_cached_embedding provider text s =
     (case map_of (cache s) text of
        Some v \<Rightarrow>
          (Inr v, s\<lparr>cache := (text, v) # filter (\<lambda>e. fst e \<noteq> text) (cache s)\<rparr>)
      | None \<Rightarrow>
          (case get_embedding provider text s of
             (Inl e, s') \<Rightarrow> (Inl e, s')
           | (Inr v, s') \<Rightarrow>
               (Inr v, s'\<lparr>cache := (text, v) #
                   (if maxsize \<le> length (cache s') then butlast (cache s')
                    else cache s')\<rparr>)))"

text \<open>A sequence of requests for embeddings, whatever each one returns or raises.\<close>

fun run :: "provider \<Rightarrow> string list \<Rightarrow> state \<Rightarrow> state" where
  "run provider [] s = s"
| "run provider (t # ts) s = run provider ts (snd (get_cached_embedding provider t s))"

text \<open>The texts of such a sequence that were answered with a vector, oldest first.\<close>

fun served :: "provider \<Rightarrow> string list \<Rightarrow> state \<Rightarrow> string list" where
  "served provider [] s = []"
| "served provider (t # ts) s =
     (case get_cached_embedding provider t s of
        (Inl e, s') \<Rightarrow> served provider ts s'
      | (Inr v, s') \<Rightarrow> t # served provider ts s')"

text \<open>The distinct texts of a history (oldest first), most recently used first.\<close>

definition recency :: "string list \<Rightarrow> string list" where
  "recency history = rev (remdups history)"

section \<open>Analysis orchestrator\<close>

text \<open>
  The module-level tables and the threshold are read-only after start-up. They are
  parameters of the model, so every statement below holds for the tables of the source
  as for any others. The threshold is \<open>float(os.getenv(...))\<close>, which also accepts
  \<open>nan\<close> and \<open>inf\<close>.
\<close>

record config =
  HOTEL_DATA :: "string \<rightharpoonup> hotel"
  REVIEWS_DATASET :: "string \<rightharpoonup> string list"
  ANOMALOUS_REVIEWS :: "string \<rightharpoonup> string list"
  SIMILARITY_THRESHOLD :: npfloat

record review_result =
  review :: string
  similarity :: npfloat
  needs_check :: bool

record report =
  hotel :: hotel
  hotel_text :: string
  normal_reviews :: "review_result list"
  anomalous_reviews :: "review_result list"
  threshold :: npfloat

text \<open>\<open>table.get(hotel_id, [])\<close>.\<close>

definition get_or_empty :: "(string \<rightharpoonup> string list) \<Rightarrow> string \<Rightarrow> string list" where
  "get_or_empty table hotel_id = (case table hotel_id of None \<Rightarrow> [] | Some rs \<Rightarrow> rs)"

text \<open>
  The two \<open>for\<close> loops of \<open>analyze_hotel_reviews\<close> have the same body and differ in
  the list they iterate and the list they append to; \<open>analyze_reviews\<close> is that loop.
  An exception leaves the loop at once and the results gathered so far are lost.
\<close>

fun analyze_reviews ::
  "config \<Rightarrow> provider \<Rightarrow> embedding \<Rightarrow> string list \<Rightarrow> state
     \<Rightarrow> (exn + review_result list) \<times> state" where
  "analyze_reviews cfg provider hotel_embedding [] s = (Inr [], s)"
| "analyze_reviews cfg provider hotel_embedding (r # rs) s =
     (case get_cached_embedding provider r s of
        (Inl e, s1) \<Rightarrow> (Inl e, s1)
      | (Inr review_embedding, s1) \<Rightarrow>
          (case cosine_similarity hotel_embedding review_embedding of
             Inl e \<Rightarrow> (Inl e, s1)
           | Inr sim \<Rightarrow>
               (case analyze_reviews cfg provider hotel_embedding rs s1 of
                  (Inl e, s2) \<Rightarrow> (Inl e, s2)
                | (Inr results, s2) \<Rightarrow>
                    (Inr (\<lparr>review = r, similarity = sim,
                           needs_check = np_less sim (SIMILARITY_THRESHOLD cfg)\<rparr>
                          # results), s2))))"

text \<open>\<open>analyze_hotel_reviews\<close>: \<open>Inr None\<close> is the \<open>return None\<close> of an unknown id,
  \<open>Inl\<close> an exception that leaves the function.\<close>

definition analyze_hotel_reviews ::
  "config \<Rightarrow> provider \<Rightarrow> string \<Rightarrow> state \<Rightarrow> (exn + report option) \<times> state" where
  "analyze_hotel_reviews cfg provider hotel_id s =
     (case HOTEL_DATA cfg hotel_id of
        None \<Rightarrow> (Inr None, s)
      | Some h \<Rightarrow>
          (case get_cached_embedding provider (analyze_hotel_text h) s of
             (Inl e, s1) \<Rightarrow> (Inl e, s1)
           | (Inr hotel_embedding, s1) \<Rightarrow>
               (case analyze_reviews cfg provider hotel_embedding
                       (get_or_empty (REVIEWS_DATASET cfg) hotel_id) s1 of
                  (Inl e, s2) \<Rightarrow> (Inl e, s2)
                | (Inr normal_results, s2) \<Rightarrow>
                    (case analyze_reviews cfg provider hotel_embedding
                            (get_or_empty (ANOMALOUS_REVIEWS cfg) hotel_id) s2 of
                       (Inl e, s3) \<Rightarrow> (Inl e, s3)
                     | (Inr anomalous_results, s3) \<Rightarrow>
                         (Inr (Some \<lparr>hotel = h, hotel_text = analyze_hotel_text h,
                                     normal_reviews = normal_results,
                                     anomalous_reviews = anomalous_results,
                                     threshold = SIMILARITY_THRESHOLD cfg\<rparr>), s3)))))"

section \<open>The two endpoints\<close>

text \<open>
  A response is the body given to \<open>jsonify\<close> and the status code. The body of a
  status-500 response carries the exception whose \<open>str\<close> is sent.
\<close>

record custom_result =
  custom_hotel :: hotel
  custom_review_text :: string
  custom_similarity :: npfloat
  custom_needs_check :: bool
  custom_threshold :: npfloat

datatype body =
    Error_message string
  | Error_exception exn
  | Report_body report
  | Custom_body custom_result

type_synonym response = "body \<times> nat"

text \<open>
  \<open>jsonify\<close> raises \<open>TypeError\<close> for a value that the JSON provider of Flask cannot
  encode; \<open>jsonify b\<close> is \<open>None\<close> when \<open>b\<close> is encoded and \<open>Some e\<close> when encoding
  raises \<open>e\<close>. Strings, Python floats and lists and dictionaries of them are encoded.
  The flag \<open>needs_check\<close> is the value of a comparison of a numpy float, a
  \<open>numpy.bool\<close>, which the provider does not encode: a custom-review result always
  holds one, a report holds one in every per-review result.
\<close>

fun jsonify :: "body \<Rightarrow> exn option" where
  "jsonify (Error_message m) = None"
| "jsonify (Error_exception e) = None"
| "jsonify (Report_body r) =
     (if normal_reviews r = [] \<and> anomalous_reviews r = [] then None else Some TypeError)"
| "jsonify (Custom_body c) = Some TypeError"

text \<open>\<open>analyze\<close>: the call of \<open>jsonify\<close> is inside the \<open>try\<close>, so its exception is
  answered with status 500 like any other.\<close>

definition analyze :: "config \<Rightarrow> provider \<Rightarrow> string \<Rightarrow> state \<Rightarrow> response \<times> state" where
  "analyze cfg provider hotel_id s =
     (case analyze_hotel_reviews cfg provider hotel_id s of
        (Inl e, s') \<Rightarrow> ((Error_exception e, 500), s')
      | (Inr None, s') \<Rightarrow> ((Error_message ''Hotel not found'', 404), s')
      | (Inr (Some result), s') \<Rightarrow>
          (case jsonify (Report_body result) of
             Some e \<Rightarrow> ((Error_exception e, 500), s')
           | None \<Rightarrow> ((Report_body result, 200), s')))"

text \<open>
  What \<open>request.get_json()\<close> does with the body of a request: it raises for a body
  that is not JSON, and otherwise returns the parsed value, which is \<open>None\<close> for a
  JSON \<open>null\<close>, a dictionary for a JSON object and a list, string, number or boolean
  for any other JSON value. The fields of an object are texts here: \<open>data.get(k)\<close> is
  \<open>data k\<close>, which is \<open>None\<close> for an absent key (and for a JSON \<open>null\<close> field).
\<close>

datatype request_json =
    Get_json_raises exn
  | Json_null
  | Json_other
  | Json_object "string \<rightharpoonup> string"

definition required_message :: string where
  "required_message = ''hotel_id and review_text are required''"

text \<open>
  The \<open>try\<close> block of \<open>custom_review\<close> up to the argument of the last \<open>jsonify\<close>: it
  raises, returns a response early, or has built the result dictionary. \<open>data.get\<close> on
  a value that is not a dictionary raises \<open>AttributeError\<close>. The test
  \<open>not hotel_id or not review_text\<close> holds when a field is \<open>None\<close> or the empty string.
\<close>

datatype attempt = Raise exn | Return response | Built custom_result

definition custom_review_try ::
  "config \<Rightarrow> provider \<Rightarrow> request_json \<Rightarrow> state \<Rightarrow> attempt \<times> state" where
  "custom_review_try cfg provider request s =
     (case request of
        Get_json_raises e \<Rightarrow> (Raise e, s)
      | Json_null \<Rightarrow> (Raise AttributeError, s)
      | Json_other \<Rightarrow> (Raise AttributeError, s)
      | Json_object data \<Rightarrow>
     (case data ''hotel_id'' of
        None \<Rightarrow> (Return (Error_message required_message, 400), s)
      | Some hotel_id \<Rightarrow>
     (case data ''review_text'' of
        None \<Rightarrow> (Return (Error_message required_message, 400), s)
      | Some review_text \<Rightarrow>
          if hotel_id = [] \<or> review_text = []
          then (Return (Error_message required_message, 400), s)
          else
            (case HOTEL_DATA cfg hotel_id of
               None \<Rightarrow> (Return (Error_message ''Hotel not found'', 404), s)
             | Some h \<Rightarrow>
                 (case get_cached_embedding provider (custom_hotel_text h) s of
                    (Inl e, s1) \<Rightarrow> (Raise e, s1)
                  | (Inr hotel_embedding, s1) \<Rightarrow>
                      (case get_cached_embedding provider review_text s1 of
                         (Inl e, s2) \<Rightarrow> (Raise e, s2)
                       | (Inr review_embedding, s2) \<Rightarrow>
                           (case cosine_similarity hotel_embedding review_embedding of
                              Inl e \<Rightarrow> (Raise e, s2)
                            | Inr sim \<Rightarrow>
                                (Built
                                   \<lparr>custom_hotel = h, custom_review_text = review_text,
                                    custom_similarity = sim,
                                    custom_needs_check =
                                      np_less sim (SIMILARITY_THRESHOLD cfg),
                                    custom_threshold = SIMILARITY_THRESHOLD cfg\<rparr>,
                                 s2))))))))"

text \<open>\<open>custom_review\<close>: the \<open>except\<close> clause answers every exception of the block,
  the one of the last \<open>jsonify\<close> included, with status 500.\<close>

definition custom_review ::
  "config \<Rightarrow> provider \<Rightarrow> request_json \<Rightarrow> state \<Rightarrow> response \<times> state" where
  "custom_review cfg provider request s =
     (case custom_review_try cfg provider request s of
        (Raise e, s') \<Rightarrow> ((Error_exception e, 500), s')
      | (Return r, s') \<Rightarrow> (r, s')
      | (Built result, s') \<Rightarrow>
          (case jsonify (Custom_body result) of
             Some e \<Rightarrow> ((Error_exception e, 500), s')
           | None \<Rightarrow> ((Custom_body result, 200), s')))"

section \<open>Predicates and sample data used in the statements\<close>

text \<open>
  A provider that answers every request for a text \<open>t\<close> with the vector \<open>emb t\<close>, and
  a cache that holds only such answers.
\<close>

definition fixed_answers :: "(string \<Rightarrow> embedding) \<Rightarrow> provider \<Rightarrow> bool" where
  "fixed_answers emb provider = (\<forall>n t. provider n t = Inr (emb t))"

definition cache_agrees :: "(string \<Rightarrow> embedding) \<Rightarrow> state \<Rightarrow> bool" where
  "cache_agrees emb s = (\<forall>e \<in> set (cache s). snd e = emb (fst e))"

text \<open>
  The per-review result as the specification words it: the review, the similarity of
  the entity's vector and the review's vector (dot product divided by the product of
  the norms), and the flag \<open>similarity < threshold\<close>.
\<close>

definition spec_result :: "npfloat \<Rightarrow> embedding \<Rightarrow> embedding \<Rightarrow> string \<Rightarrow> review_result" where
  "spec_result thr hotel_vec review_vec t =
     (let sim = fdiv (dot_value hotel_vec review_vec)
                  (fmul (np_linalg_norm hotel_vec) (np_linalg_norm review_vec))
      in \<lparr>review = t, similarity = sim, needs_check = np_less sim thr\<rparr>)"

text \<open>A small table with one hotel, one registered review and one anomalous review, and
  providers for evaluating the operations on concrete input: one with a fixed vector
  for each text, one whose answer changes with every call, one that answers every text
  with the same vector.\<close>

definition demo_hotel :: hotel where
  "demo_hotel = \<lparr>name = ''Inn'', description = ''Quiet.'', features = [''Pool'', ''Spa'']\<rparr>"

definition demo_config :: config where
  "demo_config =
     \<lparr>HOTEL_DATA = [''h1'' \<mapsto> demo_hotel],
      REVIEWS_DATASET = [''h1'' \<mapsto> [''calm'']],
      ANOMALOUS_REVIEWS = [''h1'' \<mapsto> [''loud'']],
      SIMILARITY_THRESHOLD = Finite (3 / 4)\<rparr>"

definition demo_embedding :: "string \<Rightarrow> embedding" where
  "demo_embedding t = (if t = ''loud'' then [Finite 0, Finite 1] else [Finite 1, Finite 0])"

definition demo_provider :: provider where
  "demo_provider n t = Inr (demo_embedding t)"

definition counting_provider :: provider where
  "counting_provider n t = Inr [Finite (real n)]"

definition other_provider :: provider where
  "other_provider n t = Inr [Finite 7]"

text \<open>
  The invariant behind the reuse of a cached vector: the cache is well formed, it holds
  the entry \<open>(t, v)\<close>, and the keys in front of that entry (used more recently) all
  belong to \<open>A\<close>.
\<close>

definition retained :: "string \<Rightarrow> embedding \<Rightarrow> string set \<Rightarrow> state \<Rightarrow> bool" where
  "retained t v A s \<longleftrightarrow>
     distinct (map fst (cache s)) \<and> length (cache s) \<le> maxsize
     \<and> (\<exists>pre post. cache s = pre @ (t, v) # post \<and> fst ` set pre \<subseteq> A)"

section \<open>Properties of the float arithmetic and of the similarity engine\<close>

lemma float64_round_0: "float64_round 0 = 0"
  by (simp add: float64_round_def round_half_even_def)

lemma float64_round_1: "float64_round 1 = 1"
proof -
  have u: "(2::real) powr (- 52) = 1 / 4503599627370496"
    by (simp add: powr_minus_divide powr_realpow [symmetric])
  have q: "1 / (1 / 4503599627370496 :: real) = of_int 4503599627370496"
    by simp
  have r: "round_half_even (of_int 4503599627370496) = 4503599627370496"
    unfolding round_half_even_def Let_def floor_of_int by simp
  have "float64_round 1
          = (1 / 4503599627370496) * of_int (round_half_even (1 / (1 / 4503599627370496)))"
    by (simp add: float64_round_def Let_def u)
  also have "\<dots> = 1"
    unfolding q r by simp
  finally show ?thesis .
qed

lemma fp_round_0: "fp_round 0 = Finite 0"
  by (simp add: fp_round_def overflow_threshold_def float64_round_0)

lemma fp_round_1: "fp_round 1 = Finite 1"
  by (simp add: fp_round_def overflow_threshold_def float64_round_1)

lemma fmul_commute: "fmul a b = fmul b a"
  by (cases a; cases b) (simp_all add: mult.commute)

lemma products_commute:
  "map (\<lambda>(x, y). fmul x y) (zip a b) = map (\<lambda>(x, y). fmul x y) (zip b a)"
proof (induction a arbitrary: b)
  case Nil
  show ?case by simp
next
  case (Cons x xs)
  show ?case
  proof (cases b)
    case Nil
    then show ?thesis by simp
  next
    case (Cons y ys)
    with Cons.IH [of ys] show ?thesis by (simp add: fmul_commute)
  qed
qed

lemma dot_value_commute: "dot_value a b = dot_value b a"
  by (simp add: dot_value_def products_commute)

lemma np_equal_self: "np_equal x x \<longleftrightarrow> x \<noteq> NaN"
  by (cases x) simp_all

lemma np_less_irrefl: "\<not> np_less x x"
  by (cases x) simp_all

lemma cosine_similarity_equal_length:
  "length a = length b \<Longrightarrow>
     cosine_similarity a b
       = Inr (fdiv (dot_value a b) (fmul (np_linalg_norm a) (np_linalg_norm b)))"
  by (simp add: cosine_similarity_def np_dot_def)

lemma fmul_zero_special: "fmul (Finite 0) y \<in> {Finite 0, NaN}"
  by (cases y) (simp_all add: fp_round_0)

lemma fdiv_zero_special: "fdiv d (Finite 0) \<in> {NaN, PosInf, NegInf}"
  by (cases d) simp_all

lemma fdiv_nan: "fdiv d NaN = NaN"
  by (cases d) simp_all

text \<open>
  C9, as the code has it. For all vectors, \<open>cosine_similarity a b\<close> and
  \<open>cosine_similarity b a\<close> have the same outcome: the same exception or the same
  float. The two floats compare equal with \<open>==\<close> exactly when that float is not
  \<open>nan\<close>.
\<close>

theorem cosine_similarity_symmetric:
  "cosine_similarity a b = cosine_similarity b a
   \<and> (\<forall>x y. cosine_similarity a b = Inr x \<and> cosine_similarity b a = Inr y \<longrightarrow>
         (np_equal x y \<longleftrightarrow> x \<noteq> NaN))"
proof -
  have d: "np_dot a b = np_dot b a"
    by (auto simp: np_dot_def dot_value_commute)
  have n: "fmul (np_linalg_norm a) (np_linalg_norm b)
             = fmul (np_linalg_norm b) (np_linalg_norm a)"
    by (rule fmul_commute)
  have s: "cosine_similarity a b = cosine_similarity b a"
    unfolding cosine_similarity_def d n by (rule refl)
  then show ?thesis
    by (auto simp: np_equal_self)
qed

theorem cosine_similarity_symmetric_witness:
  "cosine_similarity [Finite 1, Finite 0] [Finite 0, Finite 1] = Inr (Finite 0)
   \<and> cosine_similarity [Finite 0, Finite 1] [Finite 1, Finite 0] = Inr (Finite 0)
   \<and> np_equal (Finite 0) (Finite 0)"
proof -
  have v: "cosine_similarity [Finite 1, Finite 0] [Finite 0, Finite 1] = Inr (Finite 0)"
    by (simp add: cosine_similarity_def np_dot_def dot_value_def np_linalg_norm_def
        fp_round_0 fp_round_1)
  note T = cosine_similarity_symmetric [of "[Finite 1, Finite 0]" "[Finite 0, Finite 1]"]
  from T [THEN conjunct1] v
  have w: "cosine_similarity [Finite 0, Finite 1] [Finite 1, Finite 0] = Inr (Finite 0)"
    by simp
  from T [THEN conjunct2, THEN spec, THEN spec, THEN mp, OF conjI [OF v w]]
  have "np_equal (Finite 0) (Finite 0)" by simp
  with v w show ?thesis by simp
qed

text \<open>
  C9 as stated fails: the one-element vector \<open>[2\<^sup>6\<^sup>0\<^sup>0]\<close> has a norm that is not
  zero (its square overflows, the norm is infinite), and its similarity with itself is
  \<open>nan\<close>, which does not compare equal to itself.
\<close>

theorem cosine_similarity_symmetric_counterexample:
  "length [Finite (2 ^ 600)] = length [Finite (2 ^ 600)]
   \<and> np_linalg_norm [Finite (2 ^ 600)] = PosInf
   \<and> cosine_similarity [Finite (2 ^ 600)] [Finite (2 ^ 600)] = Inr NaN
   \<and> \<not> np_equal NaN NaN"
  by (simp add: cosine_similarity_def np_dot_def dot_value_def np_linalg_norm_def
      fp_round_def overflow_threshold_def)

text \<open>
  C1, as the code has it. \<open>cosine_similarity\<close> raises exactly when the two vectors
  have different lengths, and what it raises is numpy's \<open>ValueError\<close> from \<open>np.dot\<close>.
  For two vectors of one length it returns the quotient whatever the norms are: when a
  norm is zero the result is \<open>nan\<close> or an infinity, and nothing is raised.
\<close>

theorem cosine_similarity_preconditions:
  "((\<exists>e. cosine_similarity a b = Inl e) \<longleftrightarrow> length a \<noteq> length b)
   \<and> (length a \<noteq> length b \<longrightarrow> cosine_similarity a b = Inl ValueError)
   \<and> (length a = length b \<longrightarrow>
        cosine_similarity a b
          = Inr (fdiv (dot_value a b) (fmul (np_linalg_norm a) (np_linalg_norm b))))
   \<and> (length a = length b
        \<and> (np_linalg_norm a = Finite 0 \<or> np_linalg_norm b = Finite 0) \<longrightarrow>
        cosine_similarity a b \<in> {Inr NaN, Inr PosInf, Inr NegInf})"
proof (intro conjI impI)
  show "(\<exists>e. cosine_similarity a b = Inl e) \<longleftrightarrow> length a \<noteq> length b"
    by (simp add: cosine_similarity_def np_dot_def)
  show "cosine_similarity a b = Inl ValueError" if "length a \<noteq> length b"
    using that by (simp add: cosine_similarity_def np_dot_def)
  show "cosine_similarity a b
          = Inr (fdiv (dot_value a b) (fmul (np_linalg_norm a) (np_linalg_norm b)))"
    if "length a = length b"
    using that by (rule cosine_similarity_equal_length)
  show "cosine_similarity a b \<in> {Inr NaN, Inr PosInf, Inr NegInf}"
    if h: "length a = length b
           \<and> (np_linalg_norm a = Finite 0 \<or> np_linalg_norm b = Finite 0)"
  proof -
    have "fmul (np_linalg_norm a) (np_linalg_norm b) \<in> {Finite 0, NaN}"
    proof (cases "np_linalg_norm a = Finite 0")
      case True
      with fmul_zero_special [of "np_linalg_norm b"] show ?thesis by simp
    next
      case False
      with h have "np_linalg_norm b = Finite 0" by simp
      with fmul_zero_special [of "np_linalg_norm a"]
        fmul_commute [of "np_linalg_norm a" "Finite 0"]
      show ?thesis by simp
    qed
    then have "fdiv (dot_value a b) (fmul (np_linalg_norm a) (np_linalg_norm b))
                 \<in> {NaN, PosInf, NegInf}"
      using fdiv_zero_special [of "dot_value a b"] fdiv_nan [of "dot_value a b"]
      by auto
    with h show ?thesis
      by (auto simp: cosine_similarity_equal_length)
  qed
qed

theorem cosine_similarity_preconditions_witness:
  "length [Finite 1, Finite 0] \<noteq> length [Finite 1]
   \<and> cosine_similarity [Finite 1, Finite 0] [Finite 1] = Inl ValueError
   \<and> length [Finite 0, Finite 0] = length [Finite 1, Finite 0]
   \<and> np_linalg_norm [Finite 0, Finite 0] = Finite 0
   \<and> cosine_similarity [Finite 0, Finite 0] [Finite 1, Finite 0]
        \<in> {Inr NaN, Inr PosInf, Inr NegInf}"
proof -
  have l: "length [Finite 1, Finite 0] \<noteq> length [Finite 1]" by simp
  have n: "np_linalg_norm [Finite 0, Finite 0] = Finite 0"
    by (simp add: np_linalg_norm_def dot_value_def fp_round_0)
  have h: "length [Finite 0, Finite 0] = length [Finite 1, Finite 0]
           \<and> (np_linalg_norm [Finite 0, Finite 0] = Finite 0
                \<or> np_linalg_norm [Finite 1, Finite 0] = Finite 0)"
    using n by simp
  note T1 = cosine_similarity_preconditions [of "[Finite 1, Finite 0]" "[Finite 1]"]
  note T2 = cosine_similarity_preconditions [of "[Finite 0, Finite 0]" "[Finite 1, Finite 0]"]
  from T1 [THEN conjunct2, THEN conjunct1, THEN mp, OF l]
    T2 [THEN conjunct2, THEN conjunct2, THEN conjunct2, THEN mp, OF h] l n
  show ?thesis by simp
qed

text \<open>
  C1 as stated fails: for a zero vector and a vector of the same length no error of any
  kind is raised, and the result is \<open>nan\<close>.
\<close>

theorem cosine_similarity_zero_norm_counterexample:
  "length [Finite 0, Finite 0] = length [Finite 1, Finite 0]
   \<and> np_linalg_norm [Finite 0, Finite 0] = Finite 0
   \<and> cosine_similarity [Finite 0, Finite 0] [Finite 1, Finite 0] = Inr NaN
   \<and> \<not> (\<exists>e. cosine_similarity [Finite 0, Finite 0] [Finite 1, Finite 0] = Inl e)"
  by (simp add: cosine_similarity_def np_dot_def dot_value_def np_linalg_norm_def
      fp_round_0 fp_round_1)

section \<open>Properties of the entity text builder\<close>

text \<open>
  C3, as the code has it. The text built from an entity is its name, a full stop and a
  space, its description, a space, the Russian label, a colon and a space, and the
  features joined by a comma and a space. It is a function of the entity alone, and the
  batch analysis and the custom-review analysis build the same text.
\<close>

theorem hotel_text_template:
  "analyze_hotel_text h =
     name h @ ''. '' @ description h @ '' '' @ features_label @ '': ''
       @ join '', '' (features h)
   \<and> custom_hotel_text h = analyze_hotel_text h"
  by (simp add: analyze_hotel_text_def custom_hotel_text_def)

text \<open>
  C3 as stated fails: the text does not contain the English word of the template.
\<close>

theorem hotel_text_template_counterexample:
  "analyze_hotel_text \<lparr>name = ''A'', description = ''B'', features = [''C'', ''D'']\<rparr>
     \<noteq> spec_template \<lparr>name = ''A'', description = ''B'', features = [''C'', ''D'']\<rparr>"
  by (simp add: analyze_hotel_text_def spec_template_def features_label_def)

section \<open>Properties of the orchestrator and of the endpoints\<close>

lemma analyze_reviews_results:
  "analyze_reviews cfg provider he rs s = (Inr res, s') \<Longrightarrow>
     map review res = rs
     \<and> (\<forall>r \<in> set res. needs_check r = np_less (similarity r) (SIMILARITY_THRESHOLD cfg)
           \<and> (\<exists>v. cosine_similarity he v = Inr (similarity r)))"
proof (induction rs arbitrary: s res s')
  case Nil
  then show ?case by simp
next
  case (Cons r rs)
  from Cons.prems obtain rv s1 sim res1 where
    "cosine_similarity he rv = Inr sim"
    and rest: "analyze_reviews cfg provider he rs s1 = (Inr res1, s')"
    and res: "res = \<lparr>review = r, similarity = sim,
                needs_check = np_less sim (SIMILARITY_THRESHOLD cfg)\<rparr> # res1"
    by (auto split: prod.splits sum.splits)
  with Cons.IH [OF rest] show ?case by auto
qed

lemma get_cached_embedding_stable:
  assumes "fixed_answers emb provider" and "cache_agrees emb s"
  shows "\<exists>s'. get_cached_embedding provider t s = (Inr (emb t), s') \<and> cache_agrees emb s'"
proof (cases "map_of (cache s) t")
  case None
  from assms(1) have v: "provider (length (calls s)) t = Inr (emb t)"
    unfolding fixed_answers_def by blast
  have "set (butlast (cache s)) \<subseteq> set (cache s)"
    by (auto dest: in_set_butlastD)
  with None v assms(2) show ?thesis
    by (auto simp: get_cached_embedding_def get_embedding_def cache_agrees_def)
next
  case (Some v)
  then have "(t, v) \<in> set (cache s)" by (rule map_of_SomeD)
  with Some assms(2) show ?thesis
    by (auto simp: get_cached_embedding_def cache_agrees_def)
qed

lemma cosine_similarity_spec_result:
  "length he = length v \<Longrightarrow>
     cosine_similarity he v = Inr (similarity (spec_result thr he v t))
     \<and> needs_check (spec_result thr he v t) = np_less (similarity (spec_result thr he v t)) thr
     \<and> review (spec_result thr he v t) = t"
  by (simp add: cosine_similarity_equal_length spec_result_def Let_def)

lemma spec_result_eq:
  "length he = length v \<Longrightarrow> cosine_similarity he v = Inr sim \<Longrightarrow>
     \<lparr>review = t, similarity = sim, needs_check = np_less sim thr\<rparr> = spec_result thr he v t"
  by (simp add: cosine_similarity_equal_length spec_result_def Let_def)

lemma analyze_reviews_stable:
  assumes "fixed_answers emb provider"
  shows "cache_agrees emb s \<Longrightarrow> \<forall>t \<in> set rs. length (emb t) = length he \<Longrightarrow>
           \<exists>s'. analyze_reviews cfg provider he rs s
                  = (Inr (map (\<lambda>t. spec_result (SIMILARITY_THRESHOLD cfg) he (emb t) t) rs), s')
                \<and> cache_agrees emb s'"
proof (induction rs arbitrary: s)
  case Nil
  then show ?case by simp
next
  case (Cons r rs)
  from get_cached_embedding_stable [OF assms Cons.prems(1), of r]
  obtain s1 where g: "get_cached_embedding provider r s = (Inr (emb r), s1)"
    and s1: "cache_agrees emb s1" by blast
  from Cons.prems(2) have l: "length he = length (emb r)" by simp
  from cosine_similarity_equal_length [OF l] obtain sim where
    c: "cosine_similarity he (emb r) = Inr sim" by blast
  note e = spec_result_eq [OF l c, of r "SIMILARITY_THRESHOLD cfg"]
  from Cons.prems(2) have "\<forall>t \<in> set rs. length (emb t) = length he" by simp
  from Cons.IH [OF s1 this]
  obtain s' where "analyze_reviews cfg provider he rs s1
       = (Inr (map (\<lambda>t. spec_result (SIMILARITY_THRESHOLD cfg) he (emb t) t) rs), s')"
    and "cache_agrees emb s'" by blast
  with g c e show ?case by simp
qed

lemma analyze_hotel_reviews_stable:
  assumes h: "HOTEL_DATA cfg hotel_id = Some h"
    and st: "fixed_answers emb provider" and ag: "cache_agrees emb s"
    and dim: "\<forall>t \<in> set (get_or_empty (REVIEWS_DATASET cfg) hotel_id)
                    \<union> set (get_or_empty (ANOMALOUS_REVIEWS cfg) hotel_id).
                length (emb t) = length (emb (analyze_hotel_text h))"
  shows "\<exists>s'. analyze_hotel_reviews cfg provider hotel_id s =
           (Inr (Some \<lparr>hotel = h, hotel_text = analyze_hotel_text h,
              normal_reviews =
                map (\<lambda>t. spec_result (SIMILARITY_THRESHOLD cfg)
                            (emb (analyze_hotel_text h)) (emb t) t)
                  (get_or_empty (REVIEWS_DATASET cfg) hotel_id),
              anomalous_reviews =
                map (\<lambda>t. spec_result (SIMILARITY_THRESHOLD cfg)
                            (emb (analyze_hotel_text h)) (emb t) t)
                  (get_or_empty (ANOMALOUS_REVIEWS cfg) hotel_id),
              threshold = SIMILARITY_THRESHOLD cfg\<rparr>), s')"
proof -
  let ?he = "emb (analyze_hotel_text h)"
  from get_cached_embedding_stable [OF st ag, of "analyze_hotel_text h"]
  obtain s1 where g: "get_cached_embedding provider (analyze_hotel_text h) s = (Inr ?he, s1)"
    and s1: "cache_agrees emb s1" by blast
  from dim have d1: "\<forall>t \<in> set (get_or_empty (REVIEWS_DATASET cfg) hotel_id).
                       length (emb t) = length ?he"
    and d2: "\<forall>t \<in> set (get_or_empty (ANOMALOUS_REVIEWS cfg) hotel_id).
                       length (emb t) = length ?he"
    by simp_all
  from analyze_reviews_stable [OF st s1 d1, of cfg]
  obtain s2 where n: "analyze_reviews cfg provider ?he
        (get_or_empty (REVIEWS_DATASET cfg) hotel_id) s1
      = (Inr (map (\<lambda>t. spec_result (SIMILARITY_THRESHOLD cfg) ?he (emb t) t)
                (get_or_empty (REVIEWS_DATASET cfg) hotel_id)), s2)"
    and s2: "cache_agrees emb s2" by blast
  from analyze_reviews_stable [OF st s2 d2, of cfg]
  obtain s3 where a: "analyze_reviews cfg provider ?he
        (get_or_empty (ANOMALOUS_REVIEWS cfg) hotel_id) s2
      = (Inr (map (\<lambda>t. spec_result (SIMILARITY_THRESHOLD cfg) ?he (emb t) t)
                (get_or_empty (ANOMALOUS_REVIEWS cfg) hotel_id)), s3)"
    by blast
  from h g n a show ?thesis
    by (simp add: analyze_hotel_reviews_def)
qed

lemma analyze_hotel_reviews_parts:
  assumes "analyze_hotel_reviews cfg provider hotel_id s = (Inr (Some rep), s')"
  shows "\<exists>h he s1 s2.
           HOTEL_DATA cfg hotel_id = Some h
           \<and> analyze_reviews cfg provider he (get_or_empty (REVIEWS_DATASET cfg) hotel_id) s1
               = (Inr (normal_reviews rep), s2)
           \<and> analyze_reviews cfg provider he
                 (get_or_empty (ANOMALOUS_REVIEWS cfg) hotel_id) s2
               = (Inr (anomalous_reviews rep), s')
           \<and> hotel rep = h \<and> hotel_text rep = analyze_hotel_text h
           \<and> threshold rep = SIMILARITY_THRESHOLD cfg"
  using assms
  by (auto simp: analyze_hotel_reviews_def split: option.splits prod.splits sum.splits)
    blast+

lemma custom_review_try_built:
  assumes "custom_review_try cfg provider request s = (Built c, s')"
  shows "custom_threshold c = SIMILARITY_THRESHOLD cfg
         \<and> custom_needs_check c = np_less (custom_similarity c) (SIMILARITY_THRESHOLD cfg)
         \<and> (\<exists>hv rv. cosine_similarity hv rv = Inr (custom_similarity c))"
  using assms
  by (auto simp: custom_review_try_def
      split: request_json.splits option.splits prod.splits sum.splits if_splits)
    blast+

lemma custom_review_try_stable:
  assumes d: "data ''hotel_id'' = Some hotel_id" "hotel_id \<noteq> []"
      "data ''review_text'' = Some review_text" "review_text \<noteq> []"
    and h: "HOTEL_DATA cfg hotel_id = Some h"
    and st: "fixed_answers emb provider" and ag: "cache_agrees emb s"
    and dim: "length (emb review_text) = length (emb (custom_hotel_text h))"
  shows "\<exists>s'. custom_review_try cfg provider (Json_object data) s =
           (Built \<lparr>custom_hotel = h, custom_review_text = review_text,
              custom_similarity =
                similarity (spec_result (SIMILARITY_THRESHOLD cfg)
                  (emb (custom_hotel_text h)) (emb review_text) review_text),
              custom_needs_check =
                needs_check (spec_result (SIMILARITY_THRESHOLD cfg)
                  (emb (custom_hotel_text h)) (emb review_text) review_text),
              custom_threshold = SIMILARITY_THRESHOLD cfg\<rparr>, s')"
proof -
  let ?he = "emb (custom_hotel_text h)"
  from get_cached_embedding_stable [OF st ag, of "custom_hotel_text h"]
  obtain s1 where g1: "get_cached_embedding provider (custom_hotel_text h) s = (Inr ?he, s1)"
    and s1: "cache_agrees emb s1" by blast
  from get_cached_embedding_stable [OF st s1, of review_text]
  obtain s2 where g2: "get_cached_embedding provider review_text s1
                         = (Inr (emb review_text), s2)" by blast
  note c = cosine_similarity_spec_result
      [OF dim [symmetric], of "SIMILARITY_THRESHOLD cfg" review_text]
  from d h g1 g2 c show ?thesis
    by (simp add: custom_review_try_def)
qed

lemma demo_stable: "fixed_answers demo_embedding demo_provider"
  by (simp add: fixed_answers_def demo_provider_def)

lemma init_cache_agrees: "cache_agrees emb init_state"
  by (simp add: cache_agrees_def init_state_def)

lemma demo_tables:
  "HOTEL_DATA demo_config ''h1'' = Some demo_hotel"
  "get_or_empty (REVIEWS_DATASET demo_config) ''h1'' = [''calm'']"
  "get_or_empty (ANOMALOUS_REVIEWS demo_config) ''h1'' = [''loud'']"
  "SIMILARITY_THRESHOLD demo_config = Finite (3 / 4)"
  by (simp_all add: demo_config_def get_or_empty_def)

lemma demo_vectors:
  "demo_embedding (analyze_hotel_text demo_hotel) = [Finite 1, Finite 0]"
  "demo_embedding (custom_hotel_text demo_hotel) = [Finite 1, Finite 0]"
  "demo_embedding ''calm'' = [Finite 1, Finite 0]"
  "demo_embedding ''loud'' = [Finite 0, Finite 1]"
  by (simp_all add: demo_embedding_def analyze_hotel_text_def custom_hotel_text_def
      demo_hotel_def)

lemma demo_scores:
  "spec_result (Finite (3 / 4)) [Finite 1, Finite 0] [Finite 1, Finite 0] t
     = \<lparr>review = t, similarity = Finite 1, needs_check = False\<rparr>"
  "spec_result (Finite (3 / 4)) [Finite 1, Finite 0] [Finite 0, Finite 1] t
     = \<lparr>review = t, similarity = Finite 0, needs_check = True\<rparr>"
  by (simp_all add: spec_result_def Let_def dot_value_def np_linalg_norm_def
      fp_round_0 fp_round_1)

lemma demo_dimensions:
  "\<forall>t \<in> set (get_or_empty (REVIEWS_DATASET demo_config) ''h1'')
          \<union> set (get_or_empty (ANOMALOUS_REVIEWS demo_config) ''h1'').
      length (demo_embedding t) = length (demo_embedding (analyze_hotel_text demo_hotel))"
  by (simp add: demo_tables demo_vectors)

text \<open>
  C2. In every result of the batch analysis, and in the result that the custom-review
  analysis builds, \<open>similarity\<close> is a value returned by \<open>cosine_similarity\<close> and
  \<open>needs_check\<close> is the outcome of the comparison of that value with the threshold of
  the configuration, which the result carries; a similarity equal to the threshold
  gives \<open>needs_check = False\<close>. With a provider that answers each text with one fixed
  vector, the similarity of a review is the dot product of the entity's vector and the
  review's vector divided by the product of their norms, and the flag is the comparison
  of that number with the threshold.
\<close>

theorem needs_check_iff_below_threshold:
  "(\<forall>rep s'. analyze_hotel_reviews cfg provider hotel_id s = (Inr (Some rep), s') \<longrightarrow>
      threshold rep = SIMILARITY_THRESHOLD cfg
      \<and> (\<forall>r \<in> set (normal_reviews rep) \<union> set (anomalous_reviews rep).
            (needs_check r \<longleftrightarrow> np_less (similarity r) (threshold rep))
            \<and> (similarity r = threshold rep \<longrightarrow> \<not> needs_check r)
            \<and> (\<exists>hv rv. cosine_similarity hv rv = Inr (similarity r))))
   \<and> (\<forall>c s'. custom_review_try cfg provider request s = (Built c, s') \<longrightarrow>
      custom_threshold c = SIMILARITY_THRESHOLD cfg
      \<and> (custom_needs_check c \<longleftrightarrow> np_less (custom_similarity c) (custom_threshold c))
      \<and> (custom_similarity c = custom_threshold c \<longrightarrow> \<not> custom_needs_check c)
      \<and> (\<exists>hv rv. cosine_similarity hv rv = Inr (custom_similarity c)))
   \<and> (HOTEL_DATA cfg hotel_id = Some h \<and> fixed_answers emb provider \<and> cache_agrees emb s
        \<and> (\<forall>t \<in> set (get_or_empty (REVIEWS_DATASET cfg) hotel_id)
                  \<union> set (get_or_empty (ANOMALOUS_REVIEWS cfg) hotel_id).
              length (emb t) = length (emb (analyze_hotel_text h))) \<longrightarrow>
      (\<exists>rep s'. analyze_hotel_reviews cfg provider hotel_id s = (Inr (Some rep), s')
         \<and> normal_reviews rep =
             map (\<lambda>t. spec_result (SIMILARITY_THRESHOLD cfg)
                         (emb (analyze_hotel_text h)) (emb t) t)
               (get_or_empty (REVIEWS_DATASET cfg) hotel_id)
         \<and> anomalous_reviews rep =
             map (\<lambda>t. spec_result (SIMILARITY_THRESHOLD cfg)
                         (emb (analyze_hotel_text h)) (emb t) t)
               (get_or_empty (ANOMALOUS_REVIEWS cfg) hotel_id)))
   \<and> (data ''hotel_id'' = Some hid \<and> hid \<noteq> [] \<and> data ''review_text'' = Some rt
        \<and> rt \<noteq> [] \<and> HOTEL_DATA cfg hid = Some h \<and> fixed_answers emb provider
        \<and> cache_agrees emb s \<and> length (emb rt) = length (emb (custom_hotel_text h)) \<longrightarrow>
      (\<exists>c s'. custom_review_try cfg provider (Json_object data) s = (Built c, s')
         \<and> custom_review_text c = rt
         \<and> custom_similarity c =
             similarity (spec_result (SIMILARITY_THRESHOLD cfg)
               (emb (custom_hotel_text h)) (emb rt) rt)
         \<and> custom_needs_check c =
             needs_check (spec_result (SIMILARITY_THRESHOLD cfg)
               (emb (custom_hotel_text h)) (emb rt) rt)))"
    (is "?batch \<and> ?custom \<and> ?batch_stable \<and> ?custom_stable")
proof (intro conjI)
  show ?batch
  proof (intro allI impI)
    fix rep s'
    assume "analyze_hotel_reviews cfg provider hotel_id s = (Inr (Some rep), s')"
    from analyze_hotel_reviews_parts [OF this]
    obtain he s1 s2 where
      n: "analyze_reviews cfg provider he (get_or_empty (REVIEWS_DATASET cfg) hotel_id) s1
            = (Inr (normal_reviews rep), s2)"
      and an: "analyze_reviews cfg provider he
                 (get_or_empty (ANOMALOUS_REVIEWS cfg) hotel_id) s2
            = (Inr (anomalous_reviews rep), s')"
      and thr: "threshold rep = SIMILARITY_THRESHOLD cfg"
      by blast
    from analyze_reviews_results [OF n] analyze_reviews_results [OF an] thr
    show "threshold rep = SIMILARITY_THRESHOLD cfg
      \<and> (\<forall>r \<in> set (normal_reviews rep) \<union> set (anomalous_reviews rep).
            (needs_check r \<longleftrightarrow> np_less (similarity r) (threshold rep))
            \<and> (similarity r = threshold rep \<longrightarrow> \<not> needs_check r)
            \<and> (\<exists>hv rv. cosine_similarity hv rv = Inr (similarity r)))"
      by (auto simp: np_less_irrefl) blast+
  qed
  show ?custom
  proof (intro allI impI)
    fix c s'
    assume "custom_review_try cfg provider request s = (Built c, s')"
    from custom_review_try_built [OF this]
    show "custom_threshold c = SIMILARITY_THRESHOLD cfg
      \<and> (custom_needs_check c \<longleftrightarrow> np_less (custom_similarity c) (custom_threshold c))
      \<and> (custom_similarity c = custom_threshold c \<longrightarrow> \<not> custom_needs_check c)
      \<and> (\<exists>hv rv. cosine_similarity hv rv = Inr (custom_similarity c))"
      by (auto simp: np_less_irrefl)
  qed
  show ?batch_stable
  proof
    assume a: "HOTEL_DATA cfg hotel_id = Some h \<and> fixed_answers emb provider \<and> cache_agrees emb s
        \<and> (\<forall>t \<in> set (get_or_empty (REVIEWS_DATASET cfg) hotel_id)
                  \<union> set (get_or_empty (ANOMALOUS_REVIEWS cfg) hotel_id).
              length (emb t) = length (emb (analyze_hotel_text h)))"
    from analyze_hotel_reviews_stable
      [OF a [THEN conjunct1] a [THEN conjunct2, THEN conjunct1]
          a [THEN conjunct2, THEN conjunct2, THEN conjunct1]
          a [THEN conjunct2, THEN conjunct2, THEN conjunct2]]
    obtain s' where r: "analyze_hotel_reviews cfg provider hotel_id s =
           (Inr (Some \<lparr>hotel = h, hotel_text = analyze_hotel_text h,
              normal_reviews =
                map (\<lambda>t. spec_result (SIMILARITY_THRESHOLD cfg)
                            (emb (analyze_hotel_text h)) (emb t) t)
                  (get_or_empty (REVIEWS_DATASET cfg) hotel_id),
              anomalous_reviews =
                map (\<lambda>t. spec_result (SIMILARITY_THRESHOLD cfg)
                            (emb (analyze_hotel_text h)) (emb t) t)
                  (get_or_empty (ANOMALOUS_REVIEWS cfg) hotel_id),
              threshold = SIMILARITY_THRESHOLD cfg\<rparr>), s')"
      by (elim exE)
    show "\<exists>rep s'. analyze_hotel_reviews cfg provider hotel_id s = (Inr (Some rep), s')
         \<and> normal_reviews rep =
             map (\<lambda>t. spec_result (SIMILARITY_THRESHOLD cfg)
                         (emb (analyze_hotel_text h)) (emb t) t)
               (get_or_empty (REVIEWS_DATASET cfg) hotel_id)
         \<and> anomalous_reviews rep =
             map (\<lambda>t. spec_result (SIMILARITY_THRESHOLD cfg)
                         (emb (analyze_hotel_text h)) (emb t) t)
               (get_or_empty (ANOMALOUS_REVIEWS cfg) hotel_id)"
      by (intro exI conjI, rule r) simp_all
  qed
  show ?custom_stable
  proof
    assume a: "data ''hotel_id'' = Some hid \<and> hid \<noteq> [] \<and> data ''review_text'' = Some rt
        \<and> rt \<noteq> [] \<and> HOTEL_DATA cfg hid = Some h \<and> fixed_answers emb provider
        \<and> cache_agrees emb s \<and> length (emb rt) = length (emb (custom_hotel_text h))"
    then have d: "data ''hotel_id'' = Some hid" "hid \<noteq> []"
        "data ''review_text'' = Some rt" "rt \<noteq> []"
      and hh: "HOTEL_DATA cfg hid = Some h" and st: "fixed_answers emb provider"
      and ag: "cache_agrees emb s"
      and dim: "length (emb rt) = length (emb (custom_hotel_text h))"
      by simp_all
    from custom_review_try_stable [OF d hh st ag dim]
    obtain s' where r: "custom_review_try cfg provider (Json_object data) s =
           (Built \<lparr>custom_hotel = h, custom_review_text = rt,
              custom_similarity =
                similarity (spec_result (SIMILARITY_THRESHOLD cfg)
                  (emb (custom_hotel_text h)) (emb rt) rt),
              custom_needs_check =
                needs_check (spec_result (SIMILARITY_THRESHOLD cfg)
                  (emb (custom_hotel_text h)) (emb rt) rt),
              custom_threshold = SIMILARITY_THRESHOLD cfg\<rparr>, s')"
      by (elim exE)
    show "\<exists>c s'. custom_review_try cfg provider (Json_object data) s = (Built c, s')
         \<and> custom_review_text c = rt
         \<and> custom_similarity c =
             similarity (spec_result (SIMILARITY_THRESHOLD cfg)
               (emb (custom_hotel_text h)) (emb rt) rt)
         \<and> custom_needs_check c =
             needs_check (spec_result (SIMILARITY_THRESHOLD cfg)
               (emb (custom_hotel_text h)) (emb rt) rt)"
      by (intro exI conjI, rule r) simp_all
  qed
qed

theorem needs_check_iff_below_threshold_witness:
  "(\<exists>rep s'. analyze_hotel_reviews demo_config demo_provider ''h1'' init_state
        = (Inr (Some rep), s')
      \<and> normal_reviews rep
          = [\<lparr>review = ''calm'', similarity = Finite 1, needs_check = False\<rparr>]
      \<and> anomalous_reviews rep
          = [\<lparr>review = ''loud'', similarity = Finite 0, needs_check = True\<rparr>])
   \<and> (\<exists>c s'. custom_review_try demo_config demo_provider
        (Json_object [''hotel_id'' \<mapsto> ''h1'', ''review_text'' \<mapsto> ''loud'']) init_state
        = (Built c, s')
      \<and> custom_similarity c = Finite 0 \<and> custom_needs_check c)"
proof -
  note T = needs_check_iff_below_threshold
      [where cfg = demo_config and provider = demo_provider and hotel_id = "''h1''"
         and s = init_state and h = demo_hotel and emb = demo_embedding
         and data = "[''hotel_id'' \<mapsto> ''h1'', ''review_text'' \<mapsto> ''loud'']"
         and hid = "''h1''" and rt = "''loud''"]
  have p1: "HOTEL_DATA demo_config ''h1'' = Some demo_hotel
      \<and> fixed_answers demo_embedding demo_provider \<and> cache_agrees demo_embedding init_state
      \<and> (\<forall>t \<in> set (get_or_empty (REVIEWS_DATASET demo_config) ''h1'')
                \<union> set (get_or_empty (ANOMALOUS_REVIEWS demo_config) ''h1'').
            length (demo_embedding t)
              = length (demo_embedding (analyze_hotel_text demo_hotel)))"
    using demo_tables(1) demo_stable init_cache_agrees demo_dimensions by (intro conjI)
  have p2: "[''hotel_id'' \<mapsto> ''h1'', ''review_text'' \<mapsto> ''loud''] ''hotel_id'' = Some ''h1''
      \<and> ''h1'' \<noteq> []
      \<and> [''hotel_id'' \<mapsto> ''h1'', ''review_text'' \<mapsto> ''loud''] ''review_text'' = Some ''loud''
      \<and> ''loud'' \<noteq> [] \<and> HOTEL_DATA demo_config ''h1'' = Some demo_hotel
      \<and> fixed_answers demo_embedding demo_provider \<and> cache_agrees demo_embedding init_state
      \<and> length (demo_embedding ''loud'')
          = length (demo_embedding (custom_hotel_text demo_hotel))"
    using demo_stable init_cache_agrees by (simp add: demo_tables demo_vectors)
  note b = T [THEN conjunct2, THEN conjunct2, THEN conjunct1, THEN mp, OF p1,
              unfolded demo_tables demo_vectors demo_scores list.map]
  note c = T [THEN conjunct2, THEN conjunct2, THEN conjunct2, THEN mp, OF p2,
              unfolded demo_tables demo_vectors demo_scores]
  from c have c': "\<exists>c s'. custom_review_try demo_config demo_provider
        (Json_object [''hotel_id'' \<mapsto> ''h1'', ''review_text'' \<mapsto> ''loud'']) init_state
        = (Built c, s')
      \<and> custom_similarity c = Finite 0 \<and> custom_needs_check c"
    by auto
  from b c' show ?thesis by (intro conjI)
qed

lemma analyze_endpoint_encoding:
  assumes "analyze_hotel_reviews cfg provider hotel_id s = (Inr (Some rep), s')"
  shows "analyze cfg provider hotel_id s =
           (if normal_reviews rep = [] \<and> anomalous_reviews rep = []
            then ((Report_body rep, 200), s')
            else ((Error_exception TypeError, 500), s'))"
  using assms by (simp add: analyze_def)

lemma custom_endpoint_encoding:
  assumes "custom_review_try cfg provider request s = (Built c, s')"
  shows "custom_review cfg provider request s = ((Error_exception TypeError, 500), s')"
  using assms by (simp add: custom_review_def)

text \<open>
  C5. For an id of the entity table, the batch analysis never answers ``not found''. A
  report that it returns carries the entity record, the text built from it, the
  threshold of the configuration, one result for each review registered for the entity
  and one for each anomalous review, in the order of the registered lists. The only
  other outcome is an exception of the provider or of the similarity computation.
  With a provider that answers each text with one fixed vector, all of one dimension,
  the report is returned, and each of its results is the review with the similarity of
  the entity's vector and the review's vector and with the flag for that similarity.
\<close>

theorem analyze_hotel_reviews_results:
  assumes "HOTEL_DATA cfg hotel_id = Some h"
  shows "(\<forall>rep s'. analyze_hotel_reviews cfg provider hotel_id s = (Inr (Some rep), s') \<longrightarrow>
            hotel rep = h
            \<and> hotel_text rep = analyze_hotel_text h
            \<and> map review (normal_reviews rep) = get_or_empty (REVIEWS_DATASET cfg) hotel_id
            \<and> map review (anomalous_reviews rep)
                = get_or_empty (ANOMALOUS_REVIEWS cfg) hotel_id
            \<and> threshold rep = SIMILARITY_THRESHOLD cfg)
         \<and> fst (analyze_hotel_reviews cfg provider hotel_id s) \<noteq> Inr None
         \<and> (fixed_answers emb provider \<and> cache_agrees emb s
              \<and> (\<forall>t \<in> set (get_or_empty (REVIEWS_DATASET cfg) hotel_id)
                        \<union> set (get_or_empty (ANOMALOUS_REVIEWS cfg) hotel_id).
                    length (emb t) = length (emb (analyze_hotel_text h))) \<longrightarrow>
              fst (analyze_hotel_reviews cfg provider hotel_id s) =
                Inr (Some \<lparr>hotel = h, hotel_text = analyze_hotel_text h,
                  normal_reviews =
                    map (\<lambda>t. spec_result (SIMILARITY_THRESHOLD cfg)
                                (emb (analyze_hotel_text h)) (emb t) t)
                      (get_or_empty (REVIEWS_DATASET cfg) hotel_id),
                  anomalous_reviews =
                    map (\<lambda>t. spec_result (SIMILARITY_THRESHOLD cfg)
                                (emb (analyze_hotel_text h)) (emb t) t)
                      (get_or_empty (ANOMALOUS_REVIEWS cfg) hotel_id),
                  threshold = SIMILARITY_THRESHOLD cfg\<rparr>))"
    (is "?content \<and> ?found \<and> ?returns")
proof (intro conjI)
  show ?content
  proof (intro allI impI)
    fix rep s'
    assume "analyze_hotel_reviews cfg provider hotel_id s = (Inr (Some rep), s')"
    from analyze_hotel_reviews_parts [OF this] assms
    obtain he s1 s2 where
      n: "analyze_reviews cfg provider he (get_or_empty (REVIEWS_DATASET cfg) hotel_id) s1
            = (Inr (normal_reviews rep), s2)"
      and an: "analyze_reviews cfg provider he
                 (get_or_empty (ANOMALOUS_REVIEWS cfg) hotel_id) s2
            = (Inr (anomalous_reviews rep), s')"
      and rest: "hotel rep = h" "hotel_text rep = analyze_hotel_text h"
        "threshold rep = SIMILARITY_THRESHOLD cfg"
      by auto
    from analyze_reviews_results [OF n] analyze_reviews_results [OF an] rest
    show "hotel rep = h
            \<and> hotel_text rep = analyze_hotel_text h
            \<and> map review (normal_reviews rep) = get_or_empty (REVIEWS_DATASET cfg) hotel_id
            \<and> map review (anomalous_reviews rep)
                = get_or_empty (ANOMALOUS_REVIEWS cfg) hotel_id
            \<and> threshold rep = SIMILARITY_THRESHOLD cfg"
      by simp
  qed
  show ?found
    using assms
    by (simp add: analyze_hotel_reviews_def split: prod.splits sum.splits)
  show ?returns
  proof
    assume a: "fixed_answers emb provider \<and> cache_agrees emb s
              \<and> (\<forall>t \<in> set (get_or_empty (REVIEWS_DATASET cfg) hotel_id)
                        \<union> set (get_or_empty (ANOMALOUS_REVIEWS cfg) hotel_id).
                    length (emb t) = length (emb (analyze_hotel_text h)))"
    from analyze_hotel_reviews_stable
      [OF assms a [THEN conjunct1] a [THEN conjunct2, THEN conjunct1]
          a [THEN conjunct2, THEN conjunct2]]
    show "fst (analyze_hotel_reviews cfg provider hotel_id s) =
                Inr (Some \<lparr>hotel = h, hotel_text = analyze_hotel_text h,
                  normal_reviews =
                    map (\<lambda>t. spec_result (SIMILARITY_THRESHOLD cfg)
                                (emb (analyze_hotel_text h)) (emb t) t)
                      (get_or_empty (REVIEWS_DATASET cfg) hotel_id),
                  anomalous_reviews =
                    map (\<lambda>t. spec_result (SIMILARITY_THRESHOLD cfg)
                                (emb (analyze_hotel_text h)) (emb t) t)
                      (get_or_empty (ANOMALOUS_REVIEWS cfg) hotel_id),
                  threshold = SIMILARITY_THRESHOLD cfg\<rparr>)"
      by auto
  qed
qed

theorem analyze_hotel_reviews_results_witness:
  "HOTEL_DATA demo_config ''h1'' = Some demo_hotel
   \<and> fixed_answers demo_embedding demo_provider \<and> cache_agrees demo_embedding init_state
   \<and> fst (analyze_hotel_reviews demo_config demo_provider ''h1'' init_state) =
       Inr (Some \<lparr>hotel = demo_hotel, hotel_text = analyze_hotel_text demo_hotel,
         normal_reviews =
           [\<lparr>review = ''calm'', similarity = Finite 1, needs_check = False\<rparr>],
         anomalous_reviews =
           [\<lparr>review = ''loud'', similarity = Finite 0, needs_check = True\<rparr>],
         threshold = Finite (3 / 4)\<rparr>)"
proof -
  note T = analyze_hotel_reviews_results
      [where cfg = demo_config and hotel_id = "''h1''" and h = demo_hotel
         and provider = demo_provider and s = init_state and emb = demo_embedding,
       OF demo_tables(1)]
  have p: "fixed_answers demo_embedding demo_provider \<and> cache_agrees demo_embedding init_state
      \<and> (\<forall>t \<in> set (get_or_empty (REVIEWS_DATASET demo_config) ''h1'')
                \<union> set (get_or_empty (ANOMALOUS_REVIEWS demo_config) ''h1'').
            length (demo_embedding t)
              = length (demo_embedding (analyze_hotel_text demo_hotel)))"
    using demo_stable init_cache_agrees demo_dimensions by (intro conjI)
  note r = T [THEN conjunct2, THEN conjunct2, THEN mp, OF p,
              unfolded demo_tables demo_vectors demo_scores list.map]
  from demo_tables(1) demo_stable init_cache_agrees r show ?thesis by (intro conjI)
qed

text \<open>
  C6, as the code has it. For an id that is not in the entity table, the batch analysis
  returns \<open>None\<close> and its endpoint answers 404 ``Hotel not found''; the custom-review
  endpoint answers the same whenever the request has passed the check of the required
  fields (id and review text present and not empty). In each case the state is
  untouched: nothing was embedded and no similarity computed.
\<close>

theorem unknown_hotel_not_found:
  assumes "HOTEL_DATA cfg hotel_id = None"
  shows "analyze_hotel_reviews cfg provider hotel_id s = (Inr None, s)
         \<and> analyze cfg provider hotel_id s = ((Error_message ''Hotel not found'', 404), s)
         \<and> (data ''hotel_id'' = Some hotel_id \<and> hotel_id \<noteq> []
              \<and> data ''review_text'' = Some review_text \<and> review_text \<noteq> [] \<longrightarrow>
            custom_review cfg provider (Json_object data) s
              = ((Error_message ''Hotel not found'', 404), s))"
  using assms
  by (simp add: analyze_hotel_reviews_def analyze_def custom_review_def
      custom_review_try_def)

theorem unknown_hotel_not_found_witness:
  "HOTEL_DATA demo_config ''ghost'' = None
   \<and> analyze demo_config demo_provider ''ghost'' init_state
       = ((Error_message ''Hotel not found'', 404), init_state)
   \<and> custom_review demo_config demo_provider
       (Json_object [''hotel_id'' \<mapsto> ''ghost'', ''review_text'' \<mapsto> ''fine'']) init_state
       = ((Error_message ''Hotel not found'', 404), init_state)"
proof -
  have h: "HOTEL_DATA demo_config ''ghost'' = None"
    by (simp add: demo_config_def)
  from unknown_hotel_not_found
      [where provider = demo_provider and s = init_state
         and data = "[''hotel_id'' \<mapsto> ''ghost'', ''review_text'' \<mapsto> ''fine'']"
         and review_text = "''fine''", OF h] h
  show ?thesis by simp
qed

text \<open>
  C6 as stated fails: a custom-review request with an unknown id and an empty review text
  is answered with status 400, the invalid-request answer, not with 404.
\<close>

theorem unknown_hotel_empty_review_counterexample:
  "HOTEL_DATA demo_config ''ghost'' = None
   \<and> custom_review demo_config demo_provider
       (Json_object [''hotel_id'' \<mapsto> ''ghost'', ''review_text'' \<mapsto> []]) init_state
       = ((Error_message required_message, 400), init_state)
   \<and> snd (fst (custom_review demo_config demo_provider
       (Json_object [''hotel_id'' \<mapsto> ''ghost'', ''review_text'' \<mapsto> []]) init_state))
       \<noteq> 404"
  by (simp add: demo_config_def custom_review_def custom_review_try_def)




text \<open>
  C10. A custom-review request whose \<open>hotel_id\<close> or \<open>review_text\<close> is the empty
  string gets the answer of a request without that field: status 400 with the message
  that both are required, whatever the entity table holds, and with the state unchanged,
  so nothing was sent to the provider.
\<close>

theorem empty_field_like_missing:
  assumes "data ''hotel_id'' = Some [] \<or> data ''review_text'' = Some []"
  shows "custom_review cfg provider (Json_object data) s
           = ((Error_message required_message, 400), s)
         \<and> custom_review cfg provider (Json_object data) s
             = custom_review cfg provider (Json_object (data(''hotel_id'' := None))) s
         \<and> custom_review cfg provider (Json_object data) s
             = custom_review cfg provider (Json_object (data(''review_text'' := None))) s"
  using assms
  by (auto simp: custom_review_def custom_review_try_def split: option.splits)

theorem empty_field_like_missing_witness:
  "[''hotel_id'' \<mapsto> ''h1'', ''review_text'' \<mapsto> []] ''review_text'' = Some []
   \<and> custom_review demo_config demo_provider
        (Json_object [''hotel_id'' \<mapsto> ''h1'', ''review_text'' \<mapsto> []]) init_state
      = ((Error_message required_message, 400), init_state)
   \<and> custom_review demo_config demo_provider
        (Json_object [''hotel_id'' \<mapsto> ''h1'', ''review_text'' \<mapsto> []]) init_state
      = custom_review demo_config demo_provider (Json_object [''hotel_id'' \<mapsto> ''h1''])
          init_state"
proof -
  have e: "[''hotel_id'' \<mapsto> ''h1'', ''review_text'' \<mapsto> []] ''review_text'' = Some []"
    by simp
  have m: "[''hotel_id'' \<mapsto> ''h1'', ''review_text'' \<mapsto> []](''review_text'' := None)
            = [''hotel_id'' \<mapsto> ''h1'']"
    by (rule ext) simp
  note T = empty_field_like_missing
      [where data = "[''hotel_id'' \<mapsto> ''h1'', ''review_text'' \<mapsto> []]"
       and cfg = demo_config and provider = demo_provider and s = init_state,
       OF disjI2 [OF e]]
  from T have c1: "custom_review demo_config demo_provider
        (Json_object [''hotel_id'' \<mapsto> ''h1'', ''review_text'' \<mapsto> []]) init_state
      = ((Error_message required_message, 400), init_state)"
    by (rule conjunct1)
  from T have c3: "custom_review demo_config demo_provider
        (Json_object [''hotel_id'' \<mapsto> ''h1'', ''review_text'' \<mapsto> []]) init_state
      = custom_review demo_config demo_provider
          (Json_object
             ([''hotel_id'' \<mapsto> ''h1'', ''review_text'' \<mapsto> []](''review_text'' := None)))
          init_state"
    by (rule conjunct2 [THEN conjunct2])
  from e c1 c3 [unfolded m] show ?thesis by (intro conjI)
qed

section \<open>Properties of the embedding cache\<close>

lemma remdups_snoc: "remdups (xs @ [t]) = removeAll t (remdups xs) @ [t]"
  by (induction xs) auto

lemma recency_snoc: "recency (H @ [t]) = t # removeAll t (recency H)"
  by (simp add: recency_def remdups_snoc removeAll_filter_not_eq rev_filter)

lemma distinct_recency: "distinct (recency H)"
  by (simp add: recency_def)

lemma removeAll_take_in:
  "distinct xs \<Longrightarrow> t \<in> set (take (Suc n) xs) \<Longrightarrow>
     removeAll t (take (Suc n) xs) = take n (removeAll t xs)"
proof (induction xs arbitrary: n)
  case Nil
  then show ?case by simp
next
  case (Cons x xs)
  show ?case
  proof (cases "x = t")
    case True
    with Cons.prems(1) have "t \<notin> set xs" by simp
    then have "t \<notin> set (take n xs)"
      by (auto dest: in_set_takeD)
    with \<open>t \<notin> set xs\<close> have "removeAll t xs = xs" "removeAll t (take n xs) = take n xs"
      by simp_all
    with True show ?thesis by simp
  next
    case False
    show ?thesis
    proof (cases n)
      case 0
      with False Cons.prems(2) show ?thesis by simp
    next
      case (Suc m)
      with False Cons.prems have "removeAll t (take (Suc m) xs) = take m (removeAll t xs)"
        by (intro Cons.IH) simp_all
      with False Suc show ?thesis by simp
    qed
  qed
qed

lemma take_removeAll_notin:
  "t \<notin> set (take n xs) \<Longrightarrow> take n (removeAll t xs) = take n xs"
proof (induction xs arbitrary: n)
  case Nil
  then show ?case by simp
next
  case (Cons x xs)
  then show ?case by (cases n) auto
qed

lemma drop_back_when_full:
  "(if Suc n \<le> length (take (Suc n) xs) then butlast (take (Suc n) xs)
    else take (Suc n) xs) = take n xs"
  by (simp add: butlast_take)

lemma keys_filter: "map fst (filter (\<lambda>e. fst e \<noteq> t) c) = removeAll t (map fst c)"
  by (induction c) auto

lemma get_cached_embedding_hit:
  "map_of (cache s) t = Some v \<Longrightarrow>
     get_cached_embedding p t s =
       (Inr v, s\<lparr>cache := (t, v) # filter (\<lambda>e. fst e \<noteq> t) (cache s)\<rparr>)"
  by (simp add: get_cached_embedding_def)

lemma get_cached_embedding_miss_failure:
  "map_of (cache s) t = None \<Longrightarrow> p (length (calls s)) t = Inl e \<Longrightarrow>
     get_cached_embedding p t s = (Inl e, s\<lparr>calls := calls s @ [t]\<rparr>)"
  by (simp add: get_cached_embedding_def get_embedding_def)

lemma get_cached_embedding_miss_result:
  "map_of (cache s) t = None \<Longrightarrow> p (length (calls s)) t = Inr v \<Longrightarrow>
     get_cached_embedding p t s =
       (Inr v, s\<lparr>calls := calls s @ [t],
                 cache := (t, v) # (if maxsize \<le> length (cache s) then butlast (cache s)
                                    else cache s)\<rparr>)"
  by (simp add: get_cached_embedding_def get_embedding_def)

lemma map_of_None_keys: "map_of c t = None \<longleftrightarrow> t \<notin> set (map fst c)"
  by (simp add: map_of_eq_None_iff)

lemma step_keys:
  assumes "map fst (cache s) = take maxsize (recency H)"
  shows "map fst (cache (snd (get_cached_embedding p t s))) =
           take maxsize (recency (H @ (case fst (get_cached_embedding p t s) of
                                          Inl e \<Rightarrow> [] | Inr v \<Rightarrow> [t])))"
proof (cases "map_of (cache s) t")
  case (Some v)
  then have "t \<in> set (map fst (cache s))"
    by (metis map_of_None_keys option.distinct(1))
  with assms have "t \<in> set (take (Suc 99) (recency H))"
    by (simp add: maxsize_def)
  then have "removeAll t (take (Suc 99) (recency H)) = take 99 (removeAll t (recency H))"
    by (intro removeAll_take_in distinct_recency)
  with assms show ?thesis
    by (simp add: get_cached_embedding_hit [OF Some] keys_filter recency_snoc maxsize_def)
next
  case None
  then have notin: "t \<notin> set (take (Suc 99) (recency H))"
    using assms by (simp add: map_of_None_keys maxsize_def)
  show ?thesis
  proof (cases "p (length (calls s)) t")
    case (Inl e)
    with assms show ?thesis
      by (simp add: get_cached_embedding_miss_failure [where p = p, OF None Inl])
  next
    case (Inr v)
    from notin have "t \<notin> set (take 99 (recency H))"
      using set_take_subset_set_take [of 99 100 "recency H"] by auto
    then have 1: "take 99 (removeAll t (recency H)) = take 99 (recency H)"
      by (rule take_removeAll_notin)
    have len: "length (cache s) = min (length (recency H)) 100"
      using arg_cong [OF assms, of length] by (simp add: maxsize_def)
    have 2: "map fst (if 100 \<le> length (cache s) then butlast (cache s) else cache s)
               = take 99 (recency H)"
    proof (cases "100 \<le> length (recency H)")
      case True
      with len have "maxsize \<le> length (cache s)" by (simp add: maxsize_def)
      moreover from True have "butlast (take 100 (recency H)) = take 99 (recency H)"
        by (simp add: butlast_take)
      ultimately show ?thesis using assms by (simp add: map_butlast maxsize_def)
    next
      case False
      with len have "\<not> maxsize \<le> length (cache s)" by (simp add: maxsize_def)
      with False assms show ?thesis by (simp add: maxsize_def)
    qed
    show ?thesis
      by (simp add: get_cached_embedding_miss_result [where p = p, OF None Inr] recency_snoc 1 2 maxsize_def)
  qed
qed

lemma run_keys:
  "map fst (cache s) = take maxsize (recency H) \<Longrightarrow>
     map fst (cache (run p ts s)) = take maxsize (recency (H @ served p ts s))"
proof (induction ts arbitrary: s H)
  case Nil
  then show ?case by simp
next
  case (Cons t ts)
  obtain r s' where g: "get_cached_embedding p t s = (r, s')"
    by (cases "get_cached_embedding p t s")
  from step_keys [OF Cons.prems, of p t] g
  have "map fst (cache s') = take maxsize (recency (H @ (case r of Inl e \<Rightarrow> [] | Inr v \<Rightarrow> [t])))"
    by simp
  from Cons.IH [OF this] g show ?case
    by (cases r) simp_all
qed

text \<open>
  C8. After any sequence of requests from the empty cache, the cache holds at most 100
  entries, no key twice, and its keys are exactly the (up to) 100 most recently served
  distinct texts, most recent first. So whenever a new entry arrives at a full cache, the
  entry that leaves is the one whose last use is the oldest, and which one it is depends
  on the history of requests alone.
\<close>

theorem cache_bounded_lru:
  "length (cache (run p ts init_state)) \<le> 100
   \<and> distinct (map fst (cache (run p ts init_state)))
   \<and> map fst (cache (run p ts init_state))
       = take 100 (recency (served p ts init_state))"
proof -
  have "map fst (cache init_state) = take maxsize (recency [])"
    by (simp add: init_state_def recency_def)
  from run_keys [OF this, of p ts]
  have k: "map fst (cache (run p ts init_state))
             = take 100 (recency (served p ts init_state))"
    by (simp add: maxsize_def)
  from arg_cong [OF k, of length]
  have "length (cache (run p ts init_state)) \<le> 100"
    by simp
  moreover from k have "distinct (map fst (cache (run p ts init_state)))"
    by (simp add: distinct_recency)
  ultimately show ?thesis using k by simp
qed

lemma retained_lookup:
  assumes "retained t v A s"
  shows "map_of (cache s) t = Some v"
proof -
  from assms obtain pre post where d: "distinct (map fst (cache s))"
    and c: "cache s = pre @ (t, v) # post"
    unfolding retained_def by blast
  from d c have "t \<notin> fst ` set pre" by auto
  then have "map_of pre t = None" by (simp add: map_of_eq_None_iff)
  with c show ?thesis by (simp add: map_of_append map_add_def)
qed

lemma retained_mono: "retained t v A s \<Longrightarrow> A \<subseteq> B \<Longrightarrow> retained t v B s"
  unfolding retained_def by blast

lemma touched_distinct:
  "distinct (map fst c) \<Longrightarrow> distinct (map fst ((k, w) # filter (\<lambda>e. fst e \<noteq> k) c))"
  by (auto simp: distinct_map_filter)

lemma touched_length:
  assumes "map_of c k = Some w"
  shows "length ((k, w) # filter (\<lambda>e. fst e \<noteq> k) c) \<le> length c"
proof -
  from assms have "(k, w) \<in> set c" by (rule map_of_SomeD)
  then have "length (filter (\<lambda>e. fst e \<noteq> k) c) < length c"
    by (rule length_filter_less) simp
  then show ?thesis by simp
qed

lemma retained_step:
  assumes inv: "retained t v A s" and fin: "finite A"
    and bound: "card (insert k A) < maxsize"
  shows "retained t v (insert k A) (snd (get_cached_embedding p k s))
         \<and> count_list (calls (snd (get_cached_embedding p k s))) t = count_list (calls s) t"
proof -
  from inv obtain pre post where d: "distinct (map fst (cache s))"
    and l: "length (cache s) \<le> maxsize"
    and c: "cache s = pre @ (t, v) # post" and sub: "fst ` set pre \<subseteq> A"
    unfolding retained_def by blast
  note tv = retained_lookup [OF inv]
  show ?thesis
  proof (cases "map_of (cache s) k")
    case (Some w)
    note hit = get_cached_embedding_hit [where p = p, OF Some]
    have d': "distinct (map fst ((k, w) # filter (\<lambda>e. fst e \<noteq> k) (cache s)))"
      using d by (rule touched_distinct)
    have l': "length ((k, w) # filter (\<lambda>e. fst e \<noteq> k) (cache s)) \<le> maxsize"
      using touched_length [OF Some] l by simp
    show ?thesis
    proof (cases "k = t")
      case True
      with Some tv have "w = v" by simp
      with True have "(k, w) # filter (\<lambda>e. fst e \<noteq> k) (cache s)
                        = [] @ (t, v) # filter (\<lambda>e. fst e \<noteq> k) (cache s)"
        by simp
      then have "\<exists>pre' post'. (k, w) # filter (\<lambda>e. fst e \<noteq> k) (cache s)
                   = pre' @ (t, v) # post' \<and> fst ` set pre' \<subseteq> insert k A"
        by (intro exI [of _ "[]"] exI conjI) simp_all
      with d' l' show ?thesis
        by (simp add: hit retained_def)
    next
      case False
      then have "(k, w) # filter (\<lambda>e. fst e \<noteq> k) (cache s)
          = ((k, w) # filter (\<lambda>e. fst e \<noteq> k) pre) @ (t, v) # filter (\<lambda>e. fst e \<noteq> k) post"
        by (simp add: c)
      moreover have "fst ` set ((k, w) # filter (\<lambda>e. fst e \<noteq> k) pre) \<subseteq> insert k A"
        using sub by auto
      ultimately have "\<exists>pre' post'. (k, w) # filter (\<lambda>e. fst e \<noteq> k) (cache s)
                   = pre' @ (t, v) # post' \<and> fst ` set pre' \<subseteq> insert k A"
        by blast
      with d' l' show ?thesis
        by (simp add: hit retained_def)
    qed
  next
    case None
    with tv have kt: "k \<noteq> t" by auto
    from None have knew: "k \<notin> fst ` set (cache s)"
      by (simp add: map_of_eq_None_iff)
    show ?thesis
    proof (cases "p (length (calls s)) k")
      case (Inl e)
      have "retained t v (insert k A) (s\<lparr>calls := calls s @ [k]\<rparr>)"
        using inv by (auto simp: retained_def)
      with kt show ?thesis
        by (simp add: get_cached_embedding_miss_failure [where p = p, OF None Inl])
    next
      case (Inr w)
      note miss = get_cached_embedding_miss_result [where p = p, OF None Inr]
      let ?kept = "if maxsize \<le> length (cache s) then butlast (cache s) else cache s"
      have kept_set: "set ?kept \<subseteq> set (cache s)"
        by (auto dest: in_set_butlastD)
      have kept_distinct: "distinct (map fst ?kept)"
        using d by (simp add: map_butlast distinct_butlast)
      have kept_length: "length ?kept < maxsize"
        using l by (auto simp: maxsize_def)
      have post_ne: "post \<noteq> []" if full: "maxsize \<le> length (cache s)"
      proof
        assume "post = []"
        with c full l have "length pre = 99" by (simp add: maxsize_def)
        moreover from d c have "distinct (map fst pre)" by simp
        ultimately have "card (fst ` set pre) = 99"
          using distinct_card [of "map fst pre"] by simp
        moreover from knew c have "k \<notin> fst ` set pre" by auto
        ultimately have "card (insert k (fst ` set pre)) = 100" by simp
        moreover have "card (insert k (fst ` set pre)) \<le> card (insert k A)"
          using sub fin by (intro card_mono) auto
        ultimately show False using bound by (simp add: maxsize_def)
      qed
      have "\<exists>pre' post'. (k, w) # ?kept = pre' @ (t, v) # post'
              \<and> fst ` set pre' \<subseteq> insert k A"
      proof (cases "maxsize \<le> length (cache s)")
        case True
        from post_ne [OF True] have "butlast (cache s) = pre @ (t, v) # butlast post"
          by (simp add: c butlast_append)
        with True have "(k, w) # ?kept = ((k, w) # pre) @ (t, v) # butlast post"
          by simp
        moreover have "fst ` set ((k, w) # pre) \<subseteq> insert k A"
          using sub by auto
        ultimately show ?thesis by blast
      next
        case False
        then have "(k, w) # ?kept = ((k, w) # pre) @ (t, v) # post"
          by (simp add: c)
        moreover have "fst ` set ((k, w) # pre) \<subseteq> insert k A"
          using sub by auto
        ultimately show ?thesis by blast
      qed
      moreover have "distinct (map fst ((k, w) # ?kept))"
        using kept_distinct kept_set knew by auto
      moreover have "length ((k, w) # ?kept) \<le> maxsize"
        using kept_length by simp
      ultimately have "retained t v (insert k A)
          (s\<lparr>calls := calls s @ [k], cache := (k, w) # ?kept\<rparr>)"
        unfolding retained_def by simp
      with kt show ?thesis
        by (simp add: miss)
    qed
  qed
qed

lemma retained_run:
  "retained t v A s \<Longrightarrow> finite A \<Longrightarrow> card (A \<union> set ts) < maxsize \<Longrightarrow>
     retained t v (A \<union> set ts) (run p ts s)
     \<and> count_list (calls (run p ts s)) t = count_list (calls s) t"
proof (induction ts arbitrary: s A)
  case Nil
  then show ?case by simp
next
  case (Cons k ts)
  have "card (insert k A) \<le> card (A \<union> set (k # ts))"
    using Cons.prems(2) by (intro card_mono) auto
  with Cons.prems(3) have b: "card (insert k A) < maxsize" by simp
  note step = retained_step [OF Cons.prems(1,2) b, of p]
  from Cons.prems(3) have "card (insert k A \<union> set ts) < maxsize" by simp
  with Cons.IH [of "insert k A" "snd (get_cached_embedding p k s)"] step Cons.prems(2)
  show ?case by simp
qed

lemma run_cache_wf:
  "distinct (map fst (cache (run p ts init_state)))
   \<and> length (cache (run p ts init_state)) \<le> maxsize"
proof -
  have "map fst (cache init_state) = take maxsize (recency [])"
    by (simp add: init_state_def recency_def)
  from run_keys [OF this, of p ts]
  have k: "map fst (cache (run p ts init_state))
             = take maxsize (recency (served p ts init_state))"
    by simp
  from arg_cong [OF k, of length] have "length (cache (run p ts init_state)) \<le> maxsize"
    by simp
  with k show ?thesis by (simp add: distinct_recency)
qed

lemma retained_after_request:
  assumes "distinct (map fst (cache s))" and "length (cache s) \<le> maxsize"
    and "fst (get_cached_embedding p t s) = Inr v"
  shows "retained t v {} (snd (get_cached_embedding p t s))"
proof (cases "map_of (cache s) t")
  case (Some w)
  with assms(3) have "w = v"
    by (simp add: get_cached_embedding_hit [where p = p, OF Some])
  with assms(1,2) touched_distinct [OF assms(1), of t v] touched_length [of "cache s" t v] Some
  have "distinct (map fst ((t, v) # filter (\<lambda>e. fst e \<noteq> t) (cache s)))
        \<and> length ((t, v) # filter (\<lambda>e. fst e \<noteq> t) (cache s)) \<le> maxsize"
    by simp
  moreover have "\<exists>pre post. (t, v) # filter (\<lambda>e. fst e \<noteq> t) (cache s) = pre @ (t, v) # post
                   \<and> fst ` set pre \<subseteq> {}"
    by (intro exI [of _ "[]"] exI conjI) simp_all
  ultimately show ?thesis using \<open>w = v\<close>
    by (simp add: get_cached_embedding_hit [where p = p, OF Some] retained_def)
next
  case None
  from None have knew: "t \<notin> fst ` set (cache s)"
    by (simp add: map_of_eq_None_iff)
  from assms(3) None obtain pv where pv: "p (length (calls s)) t = Inr v"
    by (cases "p (length (calls s)) t")
       (simp_all add: get_cached_embedding_def get_embedding_def)
  let ?kept = "if maxsize \<le> length (cache s) then butlast (cache s) else cache s"
  have kept_set: "set ?kept \<subseteq> set (cache s)"
    by (auto dest: in_set_butlastD)
  have kept_distinct: "distinct (map fst ?kept)"
    using assms(1) by (simp add: map_butlast distinct_butlast)
  have kept_length: "length ?kept < maxsize"
    using assms(2) by (auto simp: maxsize_def)
  have "distinct (map fst ((t, v) # ?kept))"
    using kept_distinct kept_set knew by auto
  moreover have "length ((t, v) # ?kept) \<le> maxsize"
    using kept_length by simp
  moreover have "\<exists>pre post. (t, v) # ?kept = pre @ (t, v) # post \<and> fst ` set pre \<subseteq> {}"
    by (intro exI [of _ "[]"] exI conjI) simp_all
  ultimately show ?thesis
    unfolding retained_def
    by (simp add: get_cached_embedding_miss_result [where p = p, OF None pv])
qed

text \<open>
  C4. Let a request for the text \<open>t\<close> have returned the vector \<open>v\<close>, at any point
  of the life of the process, and let any requests follow that name fewer than 100
  distinct texts. Then a request for \<open>t\<close> returns \<open>v\<close> again and leaves the list of
  provider calls as it is, whatever the provider has become in the meantime: the
  provider of the later requests is any provider, so the answer cannot come from it.
  None of the requests in between has called the provider for \<open>t\<close>.
\<close>

theorem cached_embedding_reused:
  assumes first: "fst (get_cached_embedding p_first t (run p_before before init_state)) = Inr v"
    and few: "card (set ts) < 100"
  shows "fst (get_cached_embedding p_again t
            (run p_between ts (snd (get_cached_embedding p_first t (run p_before before init_state))))) = Inr v
         \<and> calls (snd (get_cached_embedding p_again t
              (run p_between ts (snd (get_cached_embedding p_first t (run p_before before init_state))))))
           = calls (run p_between ts (snd (get_cached_embedding p_first t (run p_before before init_state))))
         \<and> count_list
             (calls (run p_between ts (snd (get_cached_embedding p_first t (run p_before before init_state))))) t
           = count_list (calls (snd (get_cached_embedding p_first t (run p_before before init_state)))) t"
proof -
  let ?s1 = "snd (get_cached_embedding p_first t (run p_before before init_state))"
  from run_cache_wf [of p_before before] first have "retained t v {} ?s1"
    by (intro retained_after_request) simp_all
  from retained_run [OF this, of ts p_between] few
  have r: "retained t v (set ts) (run p_between ts ?s1)"
    and n: "count_list (calls (run p_between ts ?s1)) t = count_list (calls ?s1) t"
    by (simp_all add: maxsize_def)
  from retained_lookup [OF r] have "map_of (cache (run p_between ts ?s1)) t = Some v" .
  from get_cached_embedding_hit [where p = p_again, OF this] n show ?thesis by simp
qed

theorem cached_embedding_reused_witness:
  "fst (get_cached_embedding counting_provider ''a'' (run counting_provider [] init_state))
     = Inr [Finite 0]
   \<and> card (set [''b'', ''a'', ''c'']) < 100
   \<and> fst (get_cached_embedding other_provider ''a''
            (run other_provider [''b'', ''a'', ''c'']
               (snd (get_cached_embedding counting_provider ''a''
                       (run counting_provider [] init_state))))) = Inr [Finite 0]
   \<and> other_provider 3 ''a'' = Inr [Finite 7]"
proof -
  have first: "fst (get_cached_embedding counting_provider ''a''
                      (run counting_provider [] init_state)) = Inr [Finite 0]"
    by (simp add: get_cached_embedding_def get_embedding_def init_state_def
        counting_provider_def)
  have few: "card (set [''b'', ''a'', ''c'']) < 100"
    by simp
  note T = cached_embedding_reused
      [where p_first = counting_provider and p_before = counting_provider and p_between = other_provider
         and p_again = other_provider, OF first few]
  from T [THEN conjunct1] first few show ?thesis
    by (simp add: other_provider_def)
qed

end
